theory Spec2Isabelle
  imports Main "HOL-Library.Multiset"
begin

section \<open>The notebook editor: data model\<close>

text \<open>
  The development follows the component \<open>NotebookEditor\<close>. The component keeps two
  pieces of state: the notebook of the shared document (\<open>props.notebook\<close>, an array of
  cells) and the signal \<open>cellsState\<close> (the index of the active cell and the set of selected
  cell ids). Every handler of the component is a function from the state before the call
  to the state after it.
\<close>

subsection \<open>Cells\<close>

datatype CellTag = stem | rich_text | formal

text \<open>
  Modelled from the spec: the type \<open>Cell<T>\<close> and the constructors \<open>newStemCell\<close> and
  \<open>newRichTextCell\<close> are imported from \<open>./types\<close>, which is not among the sources. The
  spec gives a cell as a tagged union of a stem cell (no content), a rich-text cell (text
  content) and a formal cell (content of type \<open>T\<close>), each with an identifier assigned at
  creation. The identifier a new cell receives is an argument of the constructor here.
\<close>

datatype ('id, 't) Cell =
    StemCell (cellId: 'id)
  | RichTextCell (cellId: 'id) (richText: string)
  | FormalCell (cellId: 'id) (formalContent: 't)

fun tag :: "('id, 't) Cell \<Rightarrow> CellTag" where
  "tag (StemCell _) = stem"
| "tag (RichTextCell _ _) = rich_text"
| "tag (FormalCell _ _) = formal"

definition newStemCell :: "'id \<Rightarrow> ('id, 't) Cell" where
  "newStemCell uid = StemCell uid"

definition newRichTextCell :: "'id \<Rightarrow> ('id, 't) Cell" where
  "newRichTextCell uid = RichTextCell uid []"

subsection \<open>The state of the editor\<close>

text \<open>
  \<open>cells\<close> is \<open>props.notebook.cells\<close>; \<open>activeCell\<close> and \<open>selectedCells\<close> are the two
  fields of \<open>CellsState\<close>, read in the source through the accessors of the same names.
  \<open>textSelection\<close> records whether the document holds a text selection: the only part
  of the page that \<open>setSelectedCells\<close> writes to (\<open>removeAllRanges\<close>).
\<close>

record ('id, 't) Editor =
  cells :: "('id, 't) Cell list"
  activeCell :: int
  selectedCells :: "'id set"
  textSelection :: bool

text \<open>The initial value of the signal: \<open>createSignal<CellsState>({...})\<close>.\<close>

definition initialEditor :: "('id, 't) Cell list \<Rightarrow> bool \<Rightarrow> ('id, 't) Editor" where
  "initialEditor cs sel =
     \<lparr>cells = cs,
      activeCell = (if length cs > 0 then 0 else -1),
      selectedCells = {},
      textSelection = sel\<rparr>"

subsection \<open>Arrays\<close>

text \<open>
  \<open>Array.prototype.splice(start, deleteCount, ...items)\<close>: a negative \<open>start\<close> counts
  from the end, and both \<open>start\<close> and \<open>deleteCount\<close> are clamped to the array. The result
  is the pair of the removed elements (the value of the call) and the array afterwards.
\<close>

definition splice :: "int \<Rightarrow> int \<Rightarrow> 'a list \<Rightarrow> 'a list \<Rightarrow> 'a list \<times> 'a list" where
  "splice start deleteCount items xs =
     (let len = int (length xs);
          actualStart = (if start < 0 then max (len + start) 0 else min start len);
          actualDeleteCount = min (max deleteCount 0) (len - actualStart);
          k = nat actualStart;
          d = nat actualDeleteCount
      in (take d (drop k xs), take k xs @ items @ drop (k + d) xs))"

text \<open>\<open>xs[i]\<close> for an integer \<open>i\<close>: \<open>undefined\<close> (here \<open>None\<close>) outside the array.\<close>

definition cellAt :: "'a list \<Rightarrow> int \<Rightarrow> 'a option" where
  "cellAt xs i = (if 0 \<le> i \<and> i < int (length xs) then Some (xs ! nat i) else None)"

text \<open>\<open>Array.prototype.findIndex\<close>: the first index whose element satisfies the
  predicate, \<open>-1\<close> when there is none.\<close>

fun findIndex :: "('a \<Rightarrow> bool) \<Rightarrow> 'a list \<Rightarrow> int" where
  "findIndex p [] = -1"
| "findIndex p (x # xs) =
     (if p x then 0 else (let r = findIndex p xs in if r < 0 then -1 else r + 1))"

section \<open>The active cell and the selection\<close>

definition setActiveCell :: "int \<Rightarrow> ('id, 't) Editor \<Rightarrow> ('id, 't) Editor" where
  "setActiveCell i prev = prev\<lparr>activeCell := i, selectedCells := {}\<rparr>"

text \<open>
  The argument of \<open>setSelectedCells\<close> is a set (\<open>Inl\<close>) or a function of the previous
  selection (\<open>Inr\<close>). A non-empty new selection clears the text selection of the page.
\<close>

definition setSelectedCells ::
  "'id set + ('id set \<Rightarrow> 'id set) \<Rightarrow> ('id, 't) Editor \<Rightarrow> ('id, 't) Editor" where
  "setSelectedCells update st =
     (let s = (case update of Inl v \<Rightarrow> v | Inr f \<Rightarrow> f (selectedCells st));
          st' = st\<lparr>selectedCells := s\<rparr>
      in if s \<noteq> {} then st'\<lparr>textSelection := False\<rparr> else st')"

definition setActiveCellViaFocus :: "int \<Rightarrow> ('id, 't) Editor \<Rightarrow> ('id, 't) Editor" where
  "setActiveCellViaFocus i prev = prev\<lparr>activeCell := i\<rparr>"

definition toggleCellSelection :: "'id \<Rightarrow> ('id, 't) Editor \<Rightarrow> ('id, 't) Editor" where
  "toggleCellSelection cid st =
     setSelectedCells
       (Inr (\<lambda>prev. if cid \<in> prev then prev - {cid} else insert cid prev)) st"

definition handleCellContentClick ::
  "int \<Rightarrow> 'id \<Rightarrow> bool \<Rightarrow> ('id, 't) Editor \<Rightarrow> ('id, 't) Editor" where
  "handleCellContentClick index cid ctrlKey st =
     (if ctrlKey then toggleCellSelection cid st else st)"

section \<open>Changing the notebook\<close>

text \<open>
  Modelled from the spec: \<open>props.changeNotebook\<close> is supplied by the caller of the
  component. The spec's mutation channel applies the function it is given, once, to the
  current notebook, as one change. The function also runs the state setters it closes
  over, so it is a function of the whole editor state here.
\<close>

definition changeNotebook :: "(('id, 't) Editor \<Rightarrow> 'r) \<Rightarrow> ('id, 't) Editor \<Rightarrow> 'r" where
  "changeNotebook f st = f st"

text \<open>
  \<open>addAfterActiveCell\<close> inserts with \<open>splice\<close> at \<open>activeCell() + 1\<close>. For an active cell
  from \<open>-1\<close> to the last index that start lies within the array, and the insertion is
  the same for every kind of list the notebook may be. For a start beyond the length
  the definition follows the array: \<open>splice\<close> clamps the start to the length. A list
  of the shared document may refuse such an insertion instead; the statements on
  \<open>addOrReplaceActiveCell\<close> below are therefore about active cells from \<open>-1\<close> to the last
  index.
\<close>

definition addAfterActiveCell :: "('id, 't) Cell \<Rightarrow> ('id, 't) Editor \<Rightarrow> ('id, 't) Editor" where
  "addAfterActiveCell cell st =
     changeNotebook (\<lambda>nb.
       let nb' = nb\<lparr>cells := snd (splice (activeCell nb + 1) 0 [cell] (cells nb))\<rparr>
       in setActiveCell (activeCell nb' + 1) nb') st"

text \<open>
  \<open>nb.cells[i] = cell\<close>. At an index of the array the assignment replaces the element,
  and at the length of the array it appends the cell. Anywhere else the array would no
  longer be a sequence of cells (holes below the new element, or a property that is no
  element); that outcome is \<open>None\<close>.
\<close>

definition replaceCellWith ::
  "int \<Rightarrow> ('id, 't) Cell \<Rightarrow> ('id, 't) Editor \<Rightarrow> ('id, 't) Editor option" where
  "replaceCellWith i cell st =
     changeNotebook (\<lambda>nb.
       if 0 \<le> i \<and> i < int (length (cells nb))
       then Some (nb\<lparr>cells := (cells nb)[nat i := cell]\<rparr>)
       else if i = int (length (cells nb))
       then Some (nb\<lparr>cells := cells nb @ [cell]\<rparr>)
       else None) st"

definition addOrReplaceActiveCell ::
  "('id, 't) Cell \<Rightarrow> ('id, 't) Editor \<Rightarrow> ('id, 't) Editor option" where
  "addOrReplaceActiveCell cell st =
     (case cellAt (cells st) (activeCell st) of
        Some c \<Rightarrow>
          if tag c = formal \<or> tag c = rich_text then Some (addAfterActiveCell cell st)
          else if tag c = stem then replaceCellWith (activeCell st) cell st
          else Some st
      | None \<Rightarrow> Some (addAfterActiveCell cell st))"

definition appendCell :: "('id, 't) Cell \<Rightarrow> ('id, 't) Editor \<Rightarrow> ('id, 't) Editor" where
  "appendCell cell st =
     changeNotebook (\<lambda>nb.
       let nb' = nb\<lparr>cells := cells nb @ [cell]\<rparr>
       in setActiveCell (int (length (cells nb')) - 1) nb') st"

section \<open>The actions of a cell\<close>

text \<open>
  \<open>cellActions\<close> is built for the cell at index \<open>i\<close>; each action is a function of that
  index. \<open>createAbove\<close> and \<open>createBelow\<close> take the identifier of the stem cell they
  create.
\<close>

definition activateAbove :: "int \<Rightarrow> ('id, 't) Editor \<Rightarrow> ('id, 't) Editor" where
  "activateAbove i st = (if i > 0 then setActiveCell (i - 1) st else st)"

definition activateBelow :: "int \<Rightarrow> ('id, 't) Editor \<Rightarrow> ('id, 't) Editor" where
  "activateBelow i st =
     (let n = int (length (cells st))
      in if i < n - 1 then setActiveCell (i + 1) st else st)"

definition createAbove :: "int \<Rightarrow> 'id \<Rightarrow> ('id, 't) Editor \<Rightarrow> ('id, 't) Editor" where
  "createAbove i uid st =
     changeNotebook (\<lambda>nb.
       setActiveCell i (nb\<lparr>cells := snd (splice i 0 [newStemCell uid] (cells nb))\<rparr>)) st"

definition createBelow :: "int \<Rightarrow> 'id \<Rightarrow> ('id, 't) Editor \<Rightarrow> ('id, 't) Editor" where
  "createBelow i uid st =
     changeNotebook (\<lambda>nb.
       setActiveCell (i + 1)
         (nb\<lparr>cells := snd (splice (i + 1) 0 [newStemCell uid] (cells nb))\<rparr>)) st"

definition deleteBackward :: "int \<Rightarrow> ('id, 't) Editor \<Rightarrow> ('id, 't) Editor" where
  "deleteBackward i st =
     changeNotebook (\<lambda>nb.
       setActiveCell (i - 1) (nb\<lparr>cells := snd (splice i 1 [] (cells nb))\<rparr>)) st"

definition deleteForward :: "int \<Rightarrow> ('id, 't) Editor \<Rightarrow> ('id, 't) Editor" where
  "deleteForward i st =
     changeNotebook (\<lambda>nb.
       setActiveCell i (nb\<lparr>cells := snd (splice i 1 [] (cells nb))\<rparr>)) st"

definition hasFocused :: "int \<Rightarrow> ('id, 't) Editor \<Rightarrow> ('id, 't) Editor" where
  "hasFocused i st = setActiveCellViaFocus i st"

definition select :: "'id \<Rightarrow> ('id, 't) Editor \<Rightarrow> ('id, 't) Editor" where
  "select cid st = setSelectedCells (Inl {cid}) st"

section \<open>Reordering cells by drag and drop\<close>

text \<open>
  Modelled from the spec: the closest edge of a drop target, the data of a drag source
  or drop target (\<open>isCellDragData\<close> is imported from \<open>./notebook_cell\<close>) and
  \<open>deepCopyJSON\<close> (from \<open>../util/deepcopy\<close>) are not among the sources. The spec has a
  drop identify a source cell id, a target cell id and a closest edge of the target,
  before or after, along the vertical axis; data that do not have the shape of cell drag
  data are not recognised. The copy of a cell is a copy by value, so the cell itself.
\<close>

datatype Edge = before | after

datatype 'id DragData = CellDragData 'id "Edge option" | OtherData

fun isCellDragData :: "'id DragData \<Rightarrow> bool" where
  "isCellDragData (CellDragData _ _) = True"
| "isCellDragData OtherData = False"

fun extractClosestEdge :: "'id DragData \<Rightarrow> Edge option" where
  "extractClosestEdge (CellDragData _ e) = e"
| "extractClosestEdge OtherData = None"

definition deepCopyJSON :: "'a \<Rightarrow> 'a" where
  "deepCopyJSON v = v"

text \<open>
  Modelled from the spec: \<open>getReorderDestinationIndex\<close> belongs to the drag-and-drop
  library and is not among the sources. The spec gives its rule for two distinct indices
  and a known edge: the moved cell lands before the target when the edge is the
  leading one and after it when the edge is the trailing one, counted in the sequence
  from which the source has been removed. So a cell that moves forward (its index is
  below the target's) lands at the target's index going after and one below it going
  before; a cell that moves backward lands one above the target's index going after and
  at it going before. The spec is silent on the two other cases, equal indices and no
  edge; they are given the start index and the target's index, and the theorems on
  reordering do not rest on them.
\<close>

definition getReorderDestinationIndex :: "int \<Rightarrow> int \<Rightarrow> Edge option \<Rightarrow> int" where
  "getReorderDestinationIndex startIndex indexOfTarget closestEdgeOfTarget =
     (if startIndex = indexOfTarget then startIndex
      else case closestEdgeOfTarget of
        None \<Rightarrow> indexOfTarget
      | Some edge \<Rightarrow>
          (let isGoingAfter = (edge = after);
               isMovingForward = (startIndex < indexOfTarget)
           in if isMovingForward
              then (if isGoingAfter then indexOfTarget else indexOfTarget - 1)
              else (if isGoingAfter then indexOfTarget + 1 else indexOfTarget)))"

text \<open>
  A drop: the data of the dragged source and the data of the drop targets under the
  pointer (\<open>location.current.dropTargets\<close>), innermost first.
\<close>

record 'id DropEvent =
  sourceData :: "'id DragData"
  dropTargets :: "'id DragData list"

definition canMonitor :: "('id, 't) Editor \<Rightarrow> 'id DragData \<Rightarrow> bool" where
  "canMonitor st src =
     (case src of
        CellDragData sourceId _ \<Rightarrow> list_ex (\<lambda>cell. cellId cell = sourceId) (cells st)
      | OtherData \<Rightarrow> False)"

text \<open>
  \<open>onDrop\<close>. The handler returns early, leaving the state as it is, when there is no
  target, when the source or the target is not cell drag data, and when either id is not
  found. Otherwise it removes the source cell and inserts its copy. \<open>None\<close> stands for
  the one place where the source could raise: copying the \<open>undefined\<close> that
  \<open>const [cell] = ...\<close> yields when \<open>splice\<close> removed nothing.
\<close>

definition onDrop :: "('id, 't) Editor \<Rightarrow> 'id DropEvent \<Rightarrow> ('id, 't) Editor option" where
  "onDrop st ev =
     (case dropTargets ev of
        [] \<Rightarrow> Some st
      | target # _ \<Rightarrow>
         (case (sourceData ev, target) of
            (CellDragData sourceId _, CellDragData targetId _) \<Rightarrow>
              (let sourceIndex = findIndex (\<lambda>cell. cellId cell = sourceId) (cells st);
                   targetIndex = findIndex (\<lambda>cell. cellId cell = targetId) (cells st)
               in if sourceIndex < 0 \<or> targetIndex < 0 then Some st
                  else
                    (let finalIndex =
                           getReorderDestinationIndex sourceIndex targetIndex
                             (extractClosestEdge target)
                     in changeNotebook (\<lambda>nb.
                          case splice sourceIndex 1 [] (cells nb) of
                            (cell # _, rest) \<Rightarrow>
                              Some (nb\<lparr>cells :=
                                snd (splice finalIndex 0 [deepCopyJSON cell] rest)\<rparr>)
                          | ([], _) \<Rightarrow> None) st))
          | _ \<Rightarrow> Some st))"

section \<open>Cell constructors and commands\<close>

text \<open>
  \<open>CellConstructor<T>\<close> and \<open>Completion\<close> share the fields \<open>name\<close>, \<open>description\<close> and
  \<open>shortcut\<close>. \<open>construct\<close> takes the identifier of the cell it creates. \<open>onComplete\<close>
  is a handler: given that identifier, a function of the editor state.
\<close>

record CommandInfo =
  name :: string
  description :: "string option"
  shortcut :: "string list option"

record ('id, 't) CellConstructor = CommandInfo +
  construct :: "'id \<Rightarrow> ('id, 't) Cell"

record ('id, 't) Completion = CommandInfo +
  onComplete :: "'id \<Rightarrow> ('id, 't) Editor \<Rightarrow> ('id, 't) Editor option"

text \<open>\<open>cellShortcutModifier\<close>; the argument is \<open>navigator.userAgent.includes("Mac")\<close>.\<close>

definition cellShortcutModifier :: "bool \<Rightarrow> string" where
  "cellShortcutModifier isMac = (if isMac then ''Control'' else ''Alt'')"

text \<open>The second argument of \<open>cellConstructors\<close> is \<open>props.cellConstructors\<close>.\<close>

definition cellConstructors ::
  "bool \<Rightarrow> ('id, 't) CellConstructor list \<Rightarrow> ('id, 't) CellConstructor list" where
  "cellConstructors isMac propsCellConstructors =
     \<lparr>name = ''Text'',
      description = Some ''Start writing text'',
      shortcut = Some [cellShortcutModifier isMac, ''T''],
      construct = (\<lambda>uid. newRichTextCell uid)\<rparr>
     # propsCellConstructors"

definition insertCommands ::
  "bool \<Rightarrow> ('id, 't) CellConstructor list \<Rightarrow> ('id, 't) Completion list" where
  "insertCommands isMac propsCellConstructors =
     map (\<lambda>cc.
       \<lparr>name = name cc, description = description cc, shortcut = shortcut cc,
        onComplete = (\<lambda>uid. addOrReplaceActiveCell (construct cc uid))\<rparr>)
       (cellConstructors isMac propsCellConstructors)"

definition replaceCommands ::
  "bool \<Rightarrow> ('id, 't) CellConstructor list \<Rightarrow> int \<Rightarrow> ('id, 't) Completion list" where
  "replaceCommands isMac propsCellConstructors i =
     map (\<lambda>cc.
       \<lparr>name = name cc, description = description cc, shortcut = shortcut cc,
        onComplete = (\<lambda>uid. replaceCellWith i (construct cc uid))\<rparr>)
       (cellConstructors isMac propsCellConstructors)"

section \<open>Properties of the active cell and the selection\<close>

lemma setActiveCell_simps:
  "cells (setActiveCell i st) = cells st"
  "activeCell (setActiveCell i st) = i"
  "selectedCells (setActiveCell i st) = {}"
  "textSelection (setActiveCell i st) = textSelection st"
  by (simp_all add: setActiveCell_def)

text \<open>
  C5. After \<open>setActiveCell i\<close> the active cell is \<open>i\<close> and no cell is selected; after
  \<open>setActiveCellViaFocus i\<close> the active cell is \<open>i\<close> and the selection is the one before
  the call. Neither touches the notebook.
\<close>

theorem setActiveCell_clears_selection_focus_keeps_it:
  "activeCell (setActiveCell i st) = i
   \<and> selectedCells (setActiveCell i st) = {}
   \<and> card (selectedCells (setActiveCell i st)) = 0
   \<and> activeCell (setActiveCellViaFocus i st) = i
   \<and> selectedCells (setActiveCellViaFocus i st) = selectedCells st
   \<and> cells (setActiveCell i st) = cells st
   \<and> cells (setActiveCellViaFocus i st) = cells st
   \<and> hasFocused i st = setActiveCellViaFocus i st"
  by (simp add: setActiveCell_def setActiveCellViaFocus_def hasFocused_def)

text \<open>
  C6. Toggling the same cell id twice in succession gives back the selection: the second
  call undoes the first, whether or not the id was selected.
\<close>

theorem toggleCellSelection_twice:
  "selectedCells (toggleCellSelection cid (toggleCellSelection cid st)) = selectedCells st"
  by (auto simp add: toggleCellSelection_def setSelectedCells_def Let_def)

section \<open>Arrays: what \<open>splice\<close> and \<open>findIndex\<close> compute\<close>

lemma splice_remove_one:
  assumes "0 \<le> i" and "i < int (length xs)"
  shows "splice i 1 [] xs = ([xs ! nat i], take (nat i) xs @ drop (Suc (nat i)) xs)"
proof -
  from assms have k: "nat i < length xs" by linarith
  then have "take 1 (drop (nat i) xs) = [xs ! nat i]"
    by (simp add: Cons_nth_drop_Suc[symmetric])
  with assms k show ?thesis
    by (simp add: splice_def Let_def min_def max_def)
qed

lemma splice_insert_one:
  assumes "0 \<le> i" and "i \<le> int (length xs)"
  shows "snd (splice i 0 [c] xs) = take (nat i) xs @ c # drop (nat i) xs"
  using assms by (simp add: splice_def Let_def min_def max_def)

lemma splice_insert_length:
  "length (snd (splice i 0 [c] xs)) = Suc (length xs)"
  by (simp add: splice_def Let_def)

lemma findIndex_lower: "- 1 \<le> findIndex p xs"
  by (induction xs) (simp_all add: Let_def)

lemma findIndex_neg_iff: "findIndex p xs < 0 \<longleftrightarrow> \<not> list_ex p xs"
proof (induction xs)
  case Nil
  show ?case by simp
next
  case (Cons x xs)
  have "- 1 \<le> findIndex p xs" by (rule findIndex_lower)
  with Cons show ?case by (auto simp add: Let_def)
qed

lemma findIndex_found:
  "0 \<le> findIndex p xs \<Longrightarrow>
     findIndex p xs < int (length xs) \<and> p (xs ! nat (findIndex p xs))"
proof (induction xs)
  case Nil
  then show ?case by simp
next
  case (Cons x xs)
  show ?case
  proof (cases "p x")
    case True
    then show ?thesis by simp
  next
    case False
    with Cons.prems have r: "0 \<le> findIndex p xs"
      by (simp add: Let_def split: if_splits)
    from Cons.IH[OF r] False r show ?thesis
      by (simp add: Let_def nat_add_distrib)
  qed
qed

section \<open>Deleting a cell\<close>

lemma deleteForward_eq:
  assumes "0 \<le> i" and "i < int (length (cells st))"
  shows "deleteForward i st =
           st\<lparr>cells := take (nat i) (cells st) @ drop (Suc (nat i)) (cells st),
              activeCell := i, selectedCells := {}\<rparr>"
  using assms
  by (simp add: deleteForward_def changeNotebook_def setActiveCell_def splice_remove_one)

lemma deleteBackward_eq:
  assumes "0 \<le> i" and "i < int (length (cells st))"
  shows "deleteBackward i st =
           st\<lparr>cells := take (nat i) (cells st) @ drop (Suc (nat i)) (cells st),
              activeCell := i - 1, selectedCells := {}\<rparr>"
  using assms
  by (simp add: deleteBackward_def changeNotebook_def setActiveCell_def splice_remove_one)

lemma deleteForward_in_range:
  assumes "0 \<le> i" and "i < int (length (cells st))"
  shows "cells (deleteForward i st) = take (nat i) (cells st) @ drop (Suc (nat i)) (cells st)
       \<and> int (length (cells (deleteForward i st))) = int (length (cells st)) - 1
       \<and> activeCell (deleteForward i st) = i
       \<and> (activeCell (deleteForward i st) = min i (int (length (cells (deleteForward i st))) - 1))
           = (i < int (length (cells st)) - 1)"
proof -
  from assms have k: "nat i < length (cells st)" by linarith
  then have len: "int (length (take (nat i) (cells st) @ drop (Suc (nat i)) (cells st)))
                    = int (length (cells st)) - 1"
    by (simp add: min_def)
  show ?thesis
    using assms len
    by (simp add: deleteForward_eq min_def del: length_append length_take length_drop)
qed

text \<open>
  At the last index of any notebook \<open>deleteForward\<close> leaves the active cell at the new
  length, one past the last cell: neither the new last index nor \<open>-1\<close>.
\<close>

lemma deleteForward_last_index:
  assumes "cells st \<noteq> []"
  shows "activeCell (deleteForward (int (length (cells st)) - 1) st)
           = int (length (cells (deleteForward (int (length (cells st)) - 1) st)))"
proof -
  from assms have r: "0 \<le> int (length (cells st)) - 1"
                     "int (length (cells st)) - 1 < int (length (cells st))"
    by (simp_all add: Suc_leI)
  from deleteForward_in_range[OF r] assms show ?thesis by simp
qed

text \<open>
  The other operations keep the active cell between \<open>-1\<close> and the last index, for a
  cell index \<open>i\<close> of the notebook: the initial state, \<open>deleteBackward\<close>, \<open>createAbove\<close>,
  \<open>createBelow\<close>, \<open>appendCell\<close>, \<open>addAfterActiveCell\<close>, the two guarded moves, and
  \<open>deleteForward\<close> below the last index.
\<close>

lemma activeCell_in_range_initial:
  "- 1 \<le> activeCell (initialEditor cs sel)
   \<and> activeCell (initialEditor cs sel) < int (length (cells (initialEditor cs sel)))"
  by (simp add: initialEditor_def)

lemma activeCell_in_range_kept:
  assumes i: "0 \<le> i" "i < int (length (cells st))"
    and a: "- 1 \<le> activeCell st" "activeCell st < int (length (cells st))"
  shows "- 1 \<le> activeCell (deleteBackward i st)
       \<and> activeCell (deleteBackward i st) < int (length (cells (deleteBackward i st)))"
    and "- 1 \<le> activeCell (createAbove i uid st)
       \<and> activeCell (createAbove i uid st) < int (length (cells (createAbove i uid st)))"
    and "- 1 \<le> activeCell (createBelow i uid st)
       \<and> activeCell (createBelow i uid st) < int (length (cells (createBelow i uid st)))"
    and "- 1 \<le> activeCell (appendCell cell st)
       \<and> activeCell (appendCell cell st) < int (length (cells (appendCell cell st)))"
    and "- 1 \<le> activeCell (addAfterActiveCell cell st)
       \<and> activeCell (addAfterActiveCell cell st)
           < int (length (cells (addAfterActiveCell cell st)))"
    and "- 1 \<le> activeCell (activateAbove i st)
       \<and> activeCell (activateAbove i st) < int (length (cells (activateAbove i st)))"
    and "- 1 \<le> activeCell (activateBelow i st)
       \<and> activeCell (activateBelow i st) < int (length (cells (activateBelow i st)))"
    and "i < int (length (cells st)) - 1 \<Longrightarrow>
         - 1 \<le> activeCell (deleteForward i st)
       \<and> activeCell (deleteForward i st) < int (length (cells (deleteForward i st)))"
proof -
  from i have k: "nat i < length (cells st)" by linarith
  then have len: "int (length (take (nat i) (cells st) @ drop (Suc (nat i)) (cells st)))
                    = int (length (cells st)) - 1"
    by (simp add: min_def)
  show "- 1 \<le> activeCell (deleteBackward i st)
       \<and> activeCell (deleteBackward i st) < int (length (cells (deleteBackward i st)))"
    using i len by (simp add: deleteBackward_eq del: length_append length_take length_drop)
  show "- 1 \<le> activeCell (createAbove i uid st)
       \<and> activeCell (createAbove i uid st) < int (length (cells (createAbove i uid st)))"
    using i by (simp add: createAbove_def changeNotebook_def setActiveCell_simps
                  splice_insert_length)
  show "- 1 \<le> activeCell (createBelow i uid st)
       \<and> activeCell (createBelow i uid st) < int (length (cells (createBelow i uid st)))"
    using i by (simp add: createBelow_def changeNotebook_def setActiveCell_simps
                  splice_insert_length)
  show "- 1 \<le> activeCell (appendCell cell st)
       \<and> activeCell (appendCell cell st) < int (length (cells (appendCell cell st)))"
    by (simp add: appendCell_def changeNotebook_def setActiveCell_simps Let_def)
  show "- 1 \<le> activeCell (addAfterActiveCell cell st)
       \<and> activeCell (addAfterActiveCell cell st)
           < int (length (cells (addAfterActiveCell cell st)))"
    using a by (simp add: addAfterActiveCell_def changeNotebook_def setActiveCell_simps
                  Let_def splice_insert_length)
  show "- 1 \<le> activeCell (activateAbove i st)
       \<and> activeCell (activateAbove i st) < int (length (cells (activateAbove i st)))"
    using i a by (simp add: activateAbove_def setActiveCell_simps)
  show "- 1 \<le> activeCell (activateBelow i st)
       \<and> activeCell (activateBelow i st) < int (length (cells (activateBelow i st)))"
    using i a by (simp add: activateBelow_def setActiveCell_simps Let_def)
  show "i < int (length (cells st)) - 1 \<Longrightarrow>
         - 1 \<le> activeCell (deleteForward i st)
       \<and> activeCell (deleteForward i st) < int (length (cells (deleteForward i st)))"
    using i len
    by (simp add: deleteForward_eq del: length_append length_take length_drop)
qed

text \<open>
  C1. For an index \<open>i\<close> of the notebook the claim has \<open>deleteForward\<close> at \<open>i\<close> remove one
  cell and leave the active cell at \<open>min i (length - 1)\<close> over the new sequence, or at
  \<open>-1\<close> in a notebook that has become empty. The code removes the cell and sets the
  active cell to \<open>i\<close>, which is the claimed value at every index but the last
  (\<open>deleteForward_in_range\<close>). At the last index it leaves the active cell one past the
  end. Evaluated where the only cell of a notebook is deleted: the notebook is empty
  afterwards and the active cell is \<open>0\<close>, where the claim, the initial state of an empty
  notebook and \<open>deleteBackward\<close> on the same cell all have \<open>-1\<close>.
\<close>

theorem deleteForward_only_cell_leaves_active_cell_zero:
  "cells (deleteForward 0 (initialEditor [StemCell (1::nat) :: (nat, unit) Cell] False)) = []
   \<and> activeCell (deleteForward 0 (initialEditor [StemCell (1::nat) :: (nat, unit) Cell] False)) = 0
   \<and> \<not> (activeCell (deleteForward 0 (initialEditor [StemCell (1::nat) :: (nat, unit) Cell] False))
        = (if cells (deleteForward 0 (initialEditor [StemCell (1::nat) :: (nat, unit) Cell] False)) = []
           then - 1
           else min 0 (int (length (cells (deleteForward 0
                  (initialEditor [StemCell (1::nat) :: (nat, unit) Cell] False)))) - 1)))
   \<and> activeCell (initialEditor ([] :: (nat, unit) Cell list) False) = - 1
   \<and> activeCell (deleteBackward 0 (initialEditor [StemCell (1::nat) :: (nat, unit) Cell] False)) = - 1"
  by (simp add: deleteForward_def deleteBackward_def changeNotebook_def setActiveCell_def
        splice_def initialEditor_def)

text \<open>
  C4. For an index \<open>i\<close> of the notebook, \<open>deleteBackward\<close> at \<open>i\<close> removes the cell at
  \<open>i\<close> and leaves the active cell at \<open>i - 1\<close>; at \<open>0\<close> that is \<open>-1\<close>.
\<close>

theorem deleteBackward_removes_cell_and_activates_previous:
  assumes "0 \<le> i" and "i < int (length (cells st))"
  shows "cells (deleteBackward i st) = take (nat i) (cells st) @ drop (Suc (nat i)) (cells st)
       \<and> int (length (cells (deleteBackward i st))) = int (length (cells st)) - 1
       \<and> activeCell (deleteBackward i st) = i - 1
       \<and> activeCell (deleteBackward 0 st) = - 1"
proof -
  from assms have k: "nat i < length (cells st)" by linarith
  then have len: "int (length (take (nat i) (cells st) @ drop (Suc (nat i)) (cells st)))
                    = int (length (cells st)) - 1"
    by (simp add: min_def)
  have zero: "activeCell (deleteBackward 0 st) = - 1"
    by (simp add: deleteBackward_def changeNotebook_def setActiveCell_def)
  show ?thesis
    using assms len zero by (simp add: deleteBackward_eq del: length_append length_take length_drop) 
qed

theorem deleteBackward_witness:
  "cells (deleteBackward 1 (initialEditor [StemCell (1::nat), RichTextCell 2 ''a'', StemCell 3 :: (nat, unit) Cell] False))
     = [StemCell 1, StemCell 3]
   \<and> activeCell (deleteBackward 1 (initialEditor [StemCell (1::nat), RichTextCell 2 ''a'', StemCell 3 :: (nat, unit) Cell] False)) = 0"
  using deleteBackward_removes_cell_and_activates_previous
          [of 1 "initialEditor [StemCell (1::nat), RichTextCell 2 ''a'', StemCell 3 :: (nat, unit) Cell] False"]
  by (simp add: initialEditor_def)

section \<open>The selection after a structural operation\<close>

text \<open>
  C10. \<open>addAfterActiveCell\<close>, \<open>appendCell\<close>, \<open>createAbove\<close>, \<open>createBelow\<close>,
  \<open>deleteBackward\<close> and \<open>deleteForward\<close> each end in \<open>setActiveCell\<close>, so no cell is
  selected after any of them, whatever the selection, the index and the notebook were.
\<close>

theorem structural_operations_clear_selection:
  "selectedCells (addAfterActiveCell cell st) = {}
   \<and> selectedCells (appendCell cell st) = {}
   \<and> selectedCells (createAbove i uid st) = {}
   \<and> selectedCells (createBelow i uid st) = {}
   \<and> selectedCells (deleteBackward i st) = {}
   \<and> selectedCells (deleteForward i st) = {}"
  by (simp add: addAfterActiveCell_def appendCell_def createAbove_def createBelow_def
        deleteBackward_def deleteForward_def changeNotebook_def Let_def setActiveCell_simps)

section \<open>Inserting a cell after the active one\<close>

lemma addAfterActiveCell_eq:
  "addAfterActiveCell cell st =
     st\<lparr>cells := snd (splice (activeCell st + 1) 0 [cell] (cells st)),
        activeCell := activeCell st + 1, selectedCells := {}\<rparr>"
  by (simp add: addAfterActiveCell_def changeNotebook_def setActiveCell_def Let_def)

lemma cellAt_insert_one:
  assumes "0 \<le> k" and "k \<le> int (length xs)"
  shows "cellAt (take (nat k) xs @ c # drop (nat k) xs) k = Some c"
proof -
  from assms have "nat k \<le> length xs" by linarith
  then have "(take (nat k) xs @ c # drop (nat k) xs) ! nat k = c"
    by (simp add: nth_append)
  with assms show ?thesis
    by (simp add: cellAt_def)
qed

lemma addAfterActiveCell_in_range:
  assumes "- 1 \<le> activeCell st" and "activeCell st < int (length (cells st))"
  shows "cells (addAfterActiveCell cell st) =
           take (nat (activeCell st + 1)) (cells st) @ cell
             # drop (nat (activeCell st + 1)) (cells st)"
    and "cellAt (cells (addAfterActiveCell cell st)) (activeCell st + 1) = Some cell"
proof -
  from assms have k: "0 \<le> activeCell st + 1" "activeCell st + 1 \<le> int (length (cells st))"
    by simp_all
  show c: "cells (addAfterActiveCell cell st) =
           take (nat (activeCell st + 1)) (cells st) @ cell
             # drop (nat (activeCell st + 1)) (cells st)"
    using splice_insert_one[OF k] by (simp add: addAfterActiveCell_eq)
  show "cellAt (cells (addAfterActiveCell cell st)) (activeCell st + 1) = Some cell"
    unfolding c by (rule cellAt_insert_one[OF k])
qed

lemma addAfterActiveCell_frame:
  "length (cells (addAfterActiveCell cell st)) = length (cells st) + 1"
  "activeCell (addAfterActiveCell cell st) = activeCell st + 1"
  "selectedCells (addAfterActiveCell cell st) = {}"
  by (simp_all add: addAfterActiveCell_eq splice_insert_length)

section \<open>Moving the active cell\<close>

text \<open>
  C8, as the code has it. \<open>activateAbove\<close> and \<open>activateBelow\<close> are actions of the cell
  at index \<open>i\<close>, and they never read the active cell: \<open>activateAbove\<close> sets it to \<open>i - 1\<close>
  when \<open>i > 0\<close>, and \<open>activateBelow\<close> sets it to \<open>i + 1\<close> when \<open>i\<close> is below the last
  index. That is a step of one from the active cell when the action is that of the
  active cell. \<open>activateAbove\<close> at index \<open>0\<close> and \<open>activateBelow\<close> at the last index
  return the state as it is, with its active cell and its selection. Neither changes
  the cells of the notebook.
\<close>

theorem activateAbove_activateBelow_move_by_one:
  "cells (activateAbove i st) = cells st
   \<and> cells (activateBelow i st) = cells st
   \<and> (0 < i \<longrightarrow> activeCell (activateAbove i st) = i - 1)
   \<and> (i < int (length (cells st)) - 1 \<longrightarrow> activeCell (activateBelow i st) = i + 1)
   \<and> (activeCell st = i \<and> 0 < i \<longrightarrow>
         activeCell (activateAbove i st) = activeCell st - 1)
   \<and> (activeCell st = i \<and> i < int (length (cells st)) - 1 \<longrightarrow>
         activeCell (activateBelow i st) = activeCell st + 1)
   \<and> activateAbove 0 st = st
   \<and> activateBelow (int (length (cells st)) - 1) st = st
   \<and> (i \<le> 0 \<longrightarrow> activateAbove i st = st)
   \<and> (int (length (cells st)) - 1 \<le> i \<longrightarrow> activateBelow i st = st)"
  by (simp add: activateAbove_def activateBelow_def Let_def setActiveCell_simps)

theorem activateAbove_activateBelow_witness:
  "activeCell (activateAbove 1
      (setActiveCellViaFocus 1 (initialEditor [StemCell (1::nat), StemCell 2, StemCell 3 :: (nat, unit) Cell] True))) = 0
   \<and> activeCell (activateBelow 1
      (setActiveCellViaFocus 1 (initialEditor [StemCell (1::nat), StemCell 2, StemCell 3 :: (nat, unit) Cell] True))) = 2
   \<and> activateAbove 0 (initialEditor [StemCell (1::nat), StemCell 2, StemCell 3 :: (nat, unit) Cell] True)
       = initialEditor [StemCell 1, StemCell 2, StemCell 3] True
   \<and> activateBelow 2 (initialEditor [StemCell (1::nat), StemCell 2, StemCell 3 :: (nat, unit) Cell] True)
       = initialEditor [StemCell 1, StemCell 2, StemCell 3] True"
  using activateAbove_activateBelow_move_by_one
          [of 1 "setActiveCellViaFocus 1 (initialEditor [StemCell (1::nat), StemCell 2, StemCell 3 :: (nat, unit) Cell] True)"]
        activateAbove_activateBelow_move_by_one
          [of 2 "initialEditor [StemCell (1::nat), StemCell 2, StemCell 3 :: (nat, unit) Cell] True"]
  by (simp add: initialEditor_def setActiveCellViaFocus_def)

text \<open>
  The claim C8 as it is stated, a step of one from the active cell in every state,
  fails where the action is that of a cell other than the active one. In a notebook of
  three cells, \<open>activateAbove\<close> of the cell at index \<open>2\<close> with active cell \<open>0\<close> gives the
  active cell \<open>1\<close>, not \<open>-1\<close>; \<open>activateBelow\<close> of the cell at index \<open>0\<close> with active cell
  \<open>2\<close> gives \<open>1\<close>, not \<open>3\<close>.
\<close>

theorem activate_from_other_cell_counterexample:
  "activeCell (initialEditor [StemCell (1::nat), StemCell 2, StemCell 3 :: (nat, unit) Cell] True) = 0
   \<and> activeCell (activateAbove 2
        (initialEditor [StemCell (1::nat), StemCell 2, StemCell 3 :: (nat, unit) Cell] True)) = 1
   \<and> activeCell (activateAbove 2
        (initialEditor [StemCell (1::nat), StemCell 2, StemCell 3 :: (nat, unit) Cell] True))
      \<noteq> activeCell (initialEditor [StemCell (1::nat), StemCell 2, StemCell 3 :: (nat, unit) Cell] True) - 1
   \<and> activeCell (setActiveCellViaFocus 2
        (initialEditor [StemCell (1::nat), StemCell 2, StemCell 3 :: (nat, unit) Cell] True)) = 2
   \<and> activeCell (activateBelow 0 (setActiveCellViaFocus 2
        (initialEditor [StemCell (1::nat), StemCell 2, StemCell 3 :: (nat, unit) Cell] True))) = 1
   \<and> activeCell (activateBelow 0 (setActiveCellViaFocus 2
        (initialEditor [StemCell (1::nat), StemCell 2, StemCell 3 :: (nat, unit) Cell] True)))
      \<noteq> activeCell (setActiveCellViaFocus 2
        (initialEditor [StemCell (1::nat), StemCell 2, StemCell 3 :: (nat, unit) Cell] True)) + 1"
  by (simp add: activateAbove_def activateBelow_def setActiveCell_def
        setActiveCellViaFocus_def initialEditor_def)

section \<open>Filling in a stem cell\<close>

text \<open>
  C3, as the code has it, for an active cell from \<open>-1\<close> to the last index of the
  notebook. \<open>addOrReplaceActiveCell\<close> returns a state. Where the active position holds
  a stem cell, the new cell replaces it: the length, the active cell and the selection
  are as before. Otherwise (a rich-text or formal cell at the active position, or the
  active cell \<open>-1\<close>) the new cell is inserted right after the active position, the other
  cells keeping their order: the length grows by one, the active cell advances by one,
  the new cell sits at the new active position and the selection is cleared. Nothing is
  stated for an active cell beyond the last index.
\<close>

theorem addOrReplaceActiveCell_replaces_stem_or_inserts_after:
  assumes "- 1 \<le> activeCell st" and "activeCell st < int (length (cells st))"
  shows "\<exists>st'. addOrReplaceActiveCell cell st = Some st'
     \<and> (if \<exists>c. cellAt (cells st) (activeCell st) = Some c \<and> tag c = stem
        then cells st' = (cells st)[nat (activeCell st) := cell]
           \<and> length (cells st') = length (cells st)
           \<and> cellAt (cells st') (activeCell st) = Some cell
           \<and> activeCell st' = activeCell st
           \<and> selectedCells st' = selectedCells st
        else length (cells st') = length (cells st) + 1
           \<and> activeCell st' = activeCell st + 1
           \<and> selectedCells st' = {}
           \<and> cellAt (cells st') (activeCell st') = Some cell
           \<and> cells st' = take (nat (activeCell st + 1)) (cells st) @ cell
                            # drop (nat (activeCell st + 1)) (cells st))"
proof (cases "cellAt (cells st) (activeCell st)")
  case None
  then have nostem: "\<not> (\<exists>c. cellAt (cells st) (activeCell st) = Some c \<and> tag c = stem)"
    by simp
  have res: "addOrReplaceActiveCell cell st = Some (addAfterActiveCell cell st)"
    using None by (simp add: addOrReplaceActiveCell_def)
  show ?thesis
    unfolding res using nostem assms
    by (simp add: addAfterActiveCell_frame addAfterActiveCell_in_range cellAt_insert_one)
next
  case (Some c)
  then have inrange: "0 \<le> activeCell st" "activeCell st < int (length (cells st))"
    by (simp_all add: cellAt_def split: if_splits)
  show ?thesis
  proof (cases "tag c = stem")
    case True
    have res: "addOrReplaceActiveCell cell st =
                 Some (st\<lparr>cells := (cells st)[nat (activeCell st) := cell]\<rparr>)"
      using Some True inrange
      by (simp add: addOrReplaceActiveCell_def replaceCellWith_def changeNotebook_def)
    show ?thesis
      unfolding res using Some True inrange by (simp add: cellAt_def)
  next
    case False
    then have tg: "tag c = formal \<or> tag c = rich_text" by (cases c) simp_all
    have res: "addOrReplaceActiveCell cell st = Some (addAfterActiveCell cell st)"
      using Some tg by (simp add: addOrReplaceActiveCell_def)
    show ?thesis
      unfolding res using Some False inrange
      by (simp add: addAfterActiveCell_frame addAfterActiveCell_in_range
            cellAt_insert_one)
  qed
qed

theorem addOrReplaceActiveCell_witness:
  "(\<exists>st'. addOrReplaceActiveCell (RichTextCell 9 [])
            (initialEditor [StemCell (1::nat) :: (nat, unit) Cell] False) = Some st'
        \<and> length (cells st') = 1 \<and> activeCell st' = 0
        \<and> cellAt (cells st') 0 = Some (RichTextCell 9 []))
   \<and> (\<exists>st'. addOrReplaceActiveCell (StemCell 9)
            (initialEditor [RichTextCell (1::nat) ''a'' :: (nat, unit) Cell] False) = Some st'
        \<and> length (cells st') = 2 \<and> activeCell st' = 1
        \<and> cellAt (cells st') 1 = Some (StemCell 9))
   \<and> (\<exists>st'. addOrReplaceActiveCell (StemCell 9)
            (initialEditor ([] :: (nat, unit) Cell list) False) = Some st'
        \<and> length (cells st') = 1 \<and> activeCell st' = 0
        \<and> cellAt (cells st') 0 = Some (StemCell 9))"
  using addOrReplaceActiveCell_replaces_stem_or_inserts_after
          [where cell = "RichTextCell 9 []"
             and st = "initialEditor [StemCell (1::nat) :: (nat, unit) Cell] False"]
        addOrReplaceActiveCell_replaces_stem_or_inserts_after
          [where cell = "StemCell 9"
             and st = "initialEditor [RichTextCell (1::nat) ''a'' :: (nat, unit) Cell] False"]
        addOrReplaceActiveCell_replaces_stem_or_inserts_after
          [where cell = "StemCell 9"
             and st = "initialEditor ([] :: (nat, unit) Cell list) False"]
  by (auto simp add: initialEditor_def cellAt_def)

text \<open>
  The claim C3 as it is stated fails for an active cell beyond the last index. In the
  empty notebook with active cell \<open>0\<close> no cell is active, the new cell is inserted at
  index \<open>0\<close> and the active cell becomes \<open>1\<close>, where there is no cell. No outcome could
  meet the claim there: a sequence of length one has no cell at index \<open>1\<close>.
\<close>

theorem addOrReplaceActiveCell_out_of_range_counterexample:
  "cellAt ([] :: (nat, unit) Cell list) 0 = None
   \<and> addOrReplaceActiveCell (RichTextCell 9 [])
        \<lparr>cells = ([] :: (nat, unit) Cell list), activeCell = 0, selectedCells = {},
         textSelection = False\<rparr>
      = Some \<lparr>cells = [RichTextCell 9 []], activeCell = 1, selectedCells = {},
              textSelection = False\<rparr>
   \<and> cellAt [RichTextCell (9::nat) [] :: (nat, unit) Cell] 1 \<noteq> Some (RichTextCell 9 [])"
  by (simp add: addOrReplaceActiveCell_def addAfterActiveCell_eq cellAt_def splice_def)

section \<open>Dropping a cell\<close>

lemma findIndex_cellId_neg:
  "findIndex (\<lambda>cell. cellId cell = cid) cs < 0 \<longleftrightarrow> cid \<notin> cellId ` set cs"
  by (auto simp add: findIndex_neg_iff list_ex_iff)

lemma canMonitor_iff:
  "canMonitor st src \<longleftrightarrow> (\<exists>sid e. src = CellDragData sid e \<and> sid \<in> cellId ` set (cells st))"
  by (cases src) (auto simp add: canMonitor_def list_ex_iff)

text \<open>
  C7. A drop changes nothing and raises nothing, \<open>onDrop\<close> returning the state it was
  given, when there is no drop target, when the data of the source or of the target are
  not cell drag data, when the source id or the target id is the id of no cell of the
  notebook, and when \<open>canMonitor\<close> rejects the source over the same notebook.
\<close>

theorem onDrop_unresolved_is_noop:
  assumes "dropTargets ev = []
     \<or> sourceData ev = OtherData
     \<or> (\<exists>ts. dropTargets ev = OtherData # ts)
     \<or> (\<exists>sid e. sourceData ev = CellDragData sid e \<and> sid \<notin> cellId ` set (cells st))
     \<or> (\<exists>tid e ts. dropTargets ev = CellDragData tid e # ts \<and> tid \<notin> cellId ` set (cells st))
     \<or> \<not> canMonitor st (sourceData ev)"
  shows "onDrop st ev = Some st"
proof (cases "dropTargets ev")
  case Nil
  then show ?thesis by (simp add: onDrop_def)
next
  case (Cons target ts)
  show ?thesis
  proof (cases "sourceData ev")
    case OtherData
    with Cons show ?thesis by (simp add: onDrop_def)
  next
    case src: (CellDragData sid se)
    show ?thesis
    proof (cases target)
      case OtherData
      with Cons src show ?thesis by (simp add: onDrop_def)
    next
      case tgt: (CellDragData tid te)
      from assms Cons src tgt
      have "sid \<notin> cellId ` set (cells st) \<or> tid \<notin> cellId ` set (cells st)"
        by (auto simp add: canMonitor_iff)
      then have "findIndex (\<lambda>cell. cellId cell = sid) (cells st) < 0
               \<or> findIndex (\<lambda>cell. cellId cell = tid) (cells st) < 0"
        by (simp add: findIndex_cellId_neg)
      with Cons src tgt show ?thesis
        by (auto simp add: onDrop_def Let_def)
    qed
  qed
qed

theorem onDrop_unresolved_witness:
  "onDrop (initialEditor [StemCell (1::nat), StemCell 2 :: (nat, unit) Cell] False)
          \<lparr>sourceData = CellDragData 7 None, dropTargets = [CellDragData 2 (Some after)]\<rparr>
     = Some (initialEditor [StemCell 1, StemCell 2] False)
   \<and> onDrop (initialEditor [StemCell (1::nat), StemCell 2 :: (nat, unit) Cell] False)
          \<lparr>sourceData = CellDragData 1 None, dropTargets = [CellDragData 7 (Some before)]\<rparr>
     = Some (initialEditor [StemCell 1, StemCell 2] False)
   \<and> onDrop (initialEditor [StemCell (1::nat), StemCell 2 :: (nat, unit) Cell] False)
          \<lparr>sourceData = OtherData, dropTargets = [CellDragData 2 (Some before)]\<rparr>
     = Some (initialEditor [StemCell 1, StemCell 2] False)
   \<and> onDrop (initialEditor [StemCell (1::nat), StemCell 2 :: (nat, unit) Cell] False)
          \<lparr>sourceData = CellDragData 1 None, dropTargets = []\<rparr>
     = Some (initialEditor [StemCell 1, StemCell 2] False)"
  using onDrop_unresolved_is_noop
          [of "\<lparr>sourceData = CellDragData 7 None, dropTargets = [CellDragData 2 (Some after)]\<rparr>"
              "initialEditor [StemCell (1::nat), StemCell 2 :: (nat, unit) Cell] False"]
        onDrop_unresolved_is_noop
          [of "\<lparr>sourceData = CellDragData 1 None, dropTargets = [CellDragData 7 (Some before)]\<rparr>"
              "initialEditor [StemCell (1::nat), StemCell 2 :: (nat, unit) Cell] False"]
        onDrop_unresolved_is_noop
          [of "\<lparr>sourceData = OtherData, dropTargets = [CellDragData 2 (Some before)]\<rparr>"
              "initialEditor [StemCell (1::nat), StemCell 2 :: (nat, unit) Cell] False"]
        onDrop_unresolved_is_noop
          [of "\<lparr>sourceData = CellDragData 1 None, dropTargets = []\<rparr>"
              "initialEditor [StemCell (1::nat), StemCell 2 :: (nat, unit) Cell] False"]
  by (simp add: initialEditor_def)

section \<open>Moving a cell\<close>

text \<open>
  Removing the element at one index of a list and inserting it at another: the lists
  \<open>zs\<close> (after the removal) and \<open>ys\<close> (after the insertion) of \<open>onDrop\<close>.
\<close>

lemma nth_remove_one:
  assumes "a < length xs" and "Suc j < length xs"
  shows "(take a xs @ drop (Suc a) xs) ! j = (if j < a then xs ! j else xs ! Suc j)"
  using assms by (simp add: nth_append min_def)

lemma nth_insert_one:
  assumes "d \<le> length zs" and "j \<le> length zs"
  shows "(take d zs @ c # drop d zs) ! j =
           (if j < d then zs ! j else if j = d then c else zs ! (j - 1))"
proof -
  from assms have l: "length (take d zs) = d" by simp
  show ?thesis
  proof (cases "j < d")
    case True
    with l show ?thesis by (simp add: nth_append)
  next
    case False
    then obtain m where m: "j = d + m" using le_Suc_ex[of d j] by auto
    show ?thesis
    proof (cases m)
      case 0
      with m l assms show ?thesis by (simp add: nth_append)
    next
      case (Suc n)
      with m l assms show ?thesis by (simp add: nth_append)
    qed
  qed
qed

lemma move_cell:
  assumes a: "a < length xs" and d: "d < length xs"
    and zs: "zs = take a xs @ drop (Suc a) xs"
    and ys: "ys = take d zs @ xs ! a # drop d zs"
  shows "length ys = length xs"
    and "ys ! d = xs ! a"
    and "take d ys @ drop (Suc d) ys = zs"
    and "mset ys = mset xs"
proof -
  from a have lz: "Suc (length zs) = length xs" by (simp add: zs min_def)
  with d have dz: "d \<le> length zs" by simp
  then have lt: "length (take d zs) = d" by simp
  from lz show "length ys = length xs" by (simp add: ys)
  show "ys ! d = xs ! a"
    using nth_append_length[of "take d zs" "xs ! a" "drop d zs"] by (simp only: ys lt)
  show "take d ys @ drop (Suc d) ys = zs"
    using dz by (simp add: ys)
  have td: "mset (take d zs) + mset (drop d zs) = mset zs"
    by (simp flip: mset_append)
  have "mset ys = mset (take d zs) + mset (drop d zs) + {#xs ! a#}"
    by (simp add: ys)
  also have "\<dots> = mset zs + {#xs ! a#}" by (simp only: td)
  also have "\<dots> = mset (take a xs @ xs ! a # drop (Suc a) xs)" by (simp add: zs)
  also have "\<dots> = mset xs" using id_take_nth_drop[OF a] by simp
  finally show "mset ys = mset xs" .
qed

lemma getReorderDestinationIndex_range:
  assumes "0 \<le> a" "a < n" "0 \<le> b" "b < n" "a \<noteq> b"
  shows "0 \<le> getReorderDestinationIndex a b (Some edge)"
    and "getReorderDestinationIndex a b (Some edge) < n"
  using assms by (auto simp add: getReorderDestinationIndex_def Let_def)

lemma onDrop_moves:
  assumes src: "sourceData ev = CellDragData sid se"
    and tgt: "dropTargets ev = CellDragData tid te # ts"
    and a: "findIndex (\<lambda>cell. cellId cell = sid) (cells st) = a" "0 \<le> a"
    and b: "findIndex (\<lambda>cell. cellId cell = tid) (cells st) = b" "0 \<le> b"
    and d: "getReorderDestinationIndex a b te = d" "0 \<le> d" "d < int (length (cells st))"
  shows "onDrop st ev =
           Some (st\<lparr>cells :=
             take (nat d) (take (nat a) (cells st) @ drop (Suc (nat a)) (cells st))
             @ cells st ! nat a
             # drop (nat d) (take (nat a) (cells st) @ drop (Suc (nat a)) (cells st))\<rparr>)"
proof -
  from findIndex_found[of "\<lambda>cell. cellId cell = sid" "cells st"] a
  have alt: "a < int (length (cells st))" by simp
  then have an: "nat a < length (cells st)" using a(2) by linarith
  have rm: "splice a 1 [] (cells st) =
              ([cells st ! nat a], take (nat a) (cells st) @ drop (Suc (nat a)) (cells st))"
    using a(2) alt by (rule splice_remove_one)
  have "int (length (take (nat a) (cells st) @ drop (Suc (nat a)) (cells st)))
          = int (length (cells st)) - 1"
    using an by (simp add: min_def)
  with d have dz: "d \<le> int (length (take (nat a) (cells st) @ drop (Suc (nat a)) (cells st)))"
    by linarith
  note ins = splice_insert_one[OF d(2) dz]
  show ?thesis
    using src tgt a b d(1) d(2) rm ins
    by (simp add: onDrop_def Let_def changeNotebook_def deepCopyJSON_def
          del: length_append length_take length_drop)
qed


lemma move_adjacent:
  assumes A: "A < length xs" and B: "B < length xs"
    and zs: "zs = take A xs @ drop (Suc A) xs"
  shows "A < B \<Longrightarrow> (take B zs @ c # drop B zs) ! (B - 1) = xs ! B"
    and "A < B \<Longrightarrow> (take (B - 1) zs @ c # drop (B - 1) zs) ! B = xs ! B"
    and "B < A \<Longrightarrow> (take (Suc B) zs @ c # drop (Suc B) zs) ! B = xs ! B"
    and "B < A \<Longrightarrow> (take B zs @ c # drop B zs) ! Suc B = xs ! B"
proof -
  from A have lz: "Suc (length zs) = length xs" by (simp add: zs min_def)
  {
    assume ab: "A < B"
    then obtain k where k: "B = Suc k" by (cases B) simp_all
    with ab B lz have r: "B \<le> length zs" "k \<le> length zs" by simp_all
    from ab k have "\<not> k < A" by simp
    then have z: "zs ! k = xs ! B"
      using nth_remove_one[OF A, of k] B k by (simp add: zs)
    show "(take B zs @ c # drop B zs) ! (B - 1) = xs ! B"
      using nth_insert_one[OF r(1) r(2), of c] k z by simp
    show "(take (B - 1) zs @ c # drop (B - 1) zs) ! B = xs ! B"
      using nth_insert_one[OF r(2) r(1), of c] k z by simp
  }
  {
    assume ba: "B < A"
    with A lz have r: "B \<le> length zs" "Suc B \<le> length zs" by simp_all
    have z: "zs ! B = xs ! B"
      using nth_remove_one[OF A, of B] ba A by (simp add: zs)
    show "(take (Suc B) zs @ c # drop (Suc B) zs) ! B = xs ! B"
      using nth_insert_one[OF r(2) r(1), of c] z by simp
    show "(take B zs @ c # drop B zs) ! Suc B = xs ! B"
      using nth_insert_one[OF r(1) r(2), of c] z by simp
  }
qed

lemma count_list_map_mset:
  "mset ys = mset xs \<Longrightarrow> count_list (map f ys) v = count_list (map f xs) v"
proof -
  assume "mset ys = mset xs"
  then have "mset (map f ys) = mset (map f xs)" by simp
  then have "count (mset (map f ys)) v = count (mset (map f xs)) v" by simp
  then show ?thesis by (simp only: count_mset)
qed

lemma distinct_map_mset:
  "mset ys = mset xs \<Longrightarrow> distinct (map f xs) \<Longrightarrow> distinct (map f ys)"
proof -
  assume "mset ys = mset xs" and d: "distinct (map f xs)"
  then have "mset (map f ys) = mset (map f xs)" by simp
  from mset_eq_imp_distinct_iff[OF this] d show ?thesis by simp
qed

lemma count_list_distinct_member:
  "distinct xs \<Longrightarrow> v \<in> set xs \<Longrightarrow> count_list xs v = 1"
  by (induction xs) auto

text \<open>
  C2. Let a drop carry a source id found at index \<open>a\<close> and a target id found at index
  \<open>b\<close>, with \<open>a \<noteq> b\<close>, and an edge of the target, before or after. Then \<open>onDrop\<close>
  returns a state, and with \<open>d\<close> the destination index computed from \<open>a\<close>, \<open>b\<close> and the
  edge: \<open>d\<close> is an index of the notebook; the sequence keeps its length; the moved cell,
  with the source id, is at index \<open>d\<close>; the sequence without index \<open>d\<close> is the old
  sequence without index \<open>a\<close>, so all other cells keep their order; the target cell is
  next to the moved one, right after it for the edge before and right before it for the
  edge after; the cells are the same as a multiset, so every id occurs as often as it
  did, and where the ids of the notebook are distinct they stay distinct and the moved
  id occurs exactly once. The active cell and the selection are not touched. The
  statement covers both orders of \<open>a\<close> and \<open>b\<close> and both edges.
\<close>

theorem onDrop_reorders_cells:
  assumes src: "sourceData ev = CellDragData sid se"
    and tgt: "dropTargets ev = CellDragData tid (Some edge) # ts"
    and a: "findIndex (\<lambda>cell. cellId cell = sid) (cells st) = a" "0 \<le> a"
    and b: "findIndex (\<lambda>cell. cellId cell = tid) (cells st) = b" "0 \<le> b"
    and ab: "a \<noteq> b"
  shows "\<exists>st'. onDrop st ev = Some st'
     \<and> (let d = getReorderDestinationIndex a b (Some edge) in
          0 \<le> d \<and> d < int (length (cells st))
        \<and> length (cells st') = length (cells st)
        \<and> cells st' ! nat d = cells st ! nat a
        \<and> cellId (cells st' ! nat d) = sid
        \<and> take (nat d) (cells st') @ drop (Suc (nat d)) (cells st')
            = take (nat a) (cells st) @ drop (Suc (nat a)) (cells st)
        \<and> cells st' ! nat (if edge = before then d + 1 else d - 1) = cells st ! nat b
        \<and> mset (cells st') = mset (cells st)
        \<and> count_list (map cellId (cells st')) sid = count_list (map cellId (cells st)) sid
        \<and> (distinct (map cellId (cells st)) \<longrightarrow>
              distinct (map cellId (cells st'))
            \<and> count_list (map cellId (cells st')) sid = 1)
        \<and> activeCell st' = activeCell st
        \<and> selectedCells st' = selectedCells st)"
proof -
  define xs where "xs = cells st"
  define d where "d = getReorderDestinationIndex a b (Some edge)"
  define zs where "zs = take (nat a) xs @ drop (Suc (nat a)) xs"
  define ys where "ys = take (nat d) zs @ xs ! nat a # drop (nat d) zs"
  from findIndex_found[of "\<lambda>cell. cellId cell = sid" "cells st"] a
  have alt: "a < int (length xs)" and aid: "cellId (xs ! nat a) = sid"
    by (simp_all add: xs_def)
  from findIndex_found[of "\<lambda>cell. cellId cell = tid" "cells st"] b
  have blt: "b < int (length xs)" by (simp add: xs_def)
  have d0: "0 \<le> d" and dlt: "d < int (length xs)"
    unfolding d_def
    using getReorderDestinationIndex_range[OF a(2) alt b(2) blt ab, of edge] by simp_all
  have an: "nat a < length xs" using a(2) alt by linarith
  have bn: "nat b < length xs" using b(2) blt by linarith
  have dn: "nat d < length xs" using d0 dlt by linarith
  have res: "onDrop st ev = Some (st\<lparr>cells := ys\<rparr>)"
    using onDrop_moves[OF src tgt a b d_def[symmetric] d0 dlt[unfolded xs_def]]
    by (simp add: ys_def zs_def xs_def)
  note mv = move_cell[OF an dn zs_def ys_def]
  have adj: "ys ! nat (if edge = before then d + 1 else d - 1) = xs ! nat b"
  proof (cases "a < b")
    case True
    then have nab: "nat a < nat b" using a(2) by linarith
    show ?thesis
    proof (cases edge)
      case before
      with True ab have dv: "d = b - 1" by (simp add: d_def getReorderDestinationIndex_def)
      have "nat d = nat b - 1" using dv by (simp add: nat_diff_distrib)
      moreover have "nat (d + 1) = nat b" using dv by simp
      ultimately show ?thesis
        using move_adjacent(2)[OF an bn zs_def nab, of "xs ! nat a"] before
        by (simp add: ys_def)
    next
      case after
      with True ab have dv: "d = b" by (simp add: d_def getReorderDestinationIndex_def)
      have "nat (d - 1) = nat b - 1" using dv by (simp add: nat_diff_distrib)
      then show ?thesis
        using move_adjacent(1)[OF an bn zs_def nab, of "xs ! nat a"] after dv
        by (simp add: ys_def)
    qed
  next
    case False
    with ab have ba: "b < a" by simp
    then have nba: "nat b < nat a" using b(2) by linarith
    show ?thesis
    proof (cases edge)
      case before
      with ba ab have dv: "d = b" by (simp add: d_def getReorderDestinationIndex_def)
      have "nat (d + 1) = Suc (nat b)" using dv b(2) by (simp add: nat_add_distrib)
      then show ?thesis
        using move_adjacent(4)[OF an bn zs_def nba, of "xs ! nat a"] before dv
        by (simp add: ys_def)
    next
      case after
      with ba ab have dv: "d = b + 1" by (simp add: d_def getReorderDestinationIndex_def)
      have "nat d = Suc (nat b)" using dv b(2) by (simp add: nat_add_distrib)
      moreover have "nat (d - 1) = nat b" using dv by simp
      ultimately show ?thesis
        using move_adjacent(3)[OF an bn zs_def nba, of "xs ! nat a"] after
        by (simp add: ys_def)
    qed
  qed
  have cnt: "count_list (map cellId ys) sid = count_list (map cellId xs) sid"
    using mv(4) by (rule count_list_map_mset)
  have dist: "distinct (map cellId xs) \<longrightarrow>
                distinct (map cellId ys) \<and> count_list (map cellId ys) sid = 1"
  proof
    assume dx: "distinct (map cellId xs)"
    from nth_mem[OF an] have "cellId (xs ! nat a) \<in> cellId ` set xs" by (rule imageI)
    with aid have "sid \<in> set (map cellId xs)" by simp
    with dx have "count_list (map cellId xs) sid = 1" by (rule count_list_distinct_member)
    with cnt distinct_map_mset[OF mv(4) dx]
    show "distinct (map cellId ys) \<and> count_list (map cellId ys) sid = 1" by simp
  qed
  show ?thesis
    unfolding res Let_def d_def[symmetric] xs_def[symmetric]
    using d0 dlt mv aid adj cnt dist
    by (simp add: zs_def del: length_append length_take length_drop)
qed


theorem onDrop_reorders_witness:
  "(\<exists>st'. onDrop (initialEditor [StemCell (1::nat), StemCell 2, StemCell 3 :: (nat, unit) Cell] False)
            \<lparr>sourceData = CellDragData 1 None, dropTargets = [CellDragData 3 (Some after)]\<rparr>
          = Some st'
        \<and> length (cells st') = 3 \<and> cells st' ! 2 = StemCell 1 \<and> cells st' ! 1 = StemCell 3)
   \<and> (\<exists>st'. onDrop (initialEditor [StemCell (1::nat), StemCell 2, StemCell 3 :: (nat, unit) Cell] False)
            \<lparr>sourceData = CellDragData 1 None, dropTargets = [CellDragData 3 (Some before)]\<rparr>
          = Some st'
        \<and> length (cells st') = 3 \<and> cells st' ! 1 = StemCell 1 \<and> cells st' ! 2 = StemCell 3)
   \<and> (\<exists>st'. onDrop (initialEditor [StemCell (1::nat), StemCell 2, StemCell 3 :: (nat, unit) Cell] False)
            \<lparr>sourceData = CellDragData 3 None, dropTargets = [CellDragData 1 (Some after)]\<rparr>
          = Some st'
        \<and> length (cells st') = 3 \<and> cells st' ! 1 = StemCell 3 \<and> cells st' ! 0 = StemCell 1)
   \<and> (\<exists>st'. onDrop (initialEditor [StemCell (1::nat), StemCell 2, StemCell 3 :: (nat, unit) Cell] False)
            \<lparr>sourceData = CellDragData 3 None, dropTargets = [CellDragData 1 (Some before)]\<rparr>
          = Some st'
        \<and> length (cells st') = 3 \<and> cells st' ! 0 = StemCell 3 \<and> cells st' ! 1 = StemCell 1)"
  using onDrop_reorders_cells
          [where st = "initialEditor [StemCell (1::nat), StemCell 2, StemCell 3 :: (nat, unit) Cell] False"
             and ev = "\<lparr>sourceData = CellDragData 1 None, dropTargets = [CellDragData 3 (Some after)]\<rparr>"
             and sid = 1 and se = None and tid = 3 and edge = after and ts = "[]" and a = 0 and b = 2]
        onDrop_reorders_cells
          [where st = "initialEditor [StemCell (1::nat), StemCell 2, StemCell 3 :: (nat, unit) Cell] False"
             and ev = "\<lparr>sourceData = CellDragData 1 None, dropTargets = [CellDragData 3 (Some before)]\<rparr>"
             and sid = 1 and se = None and tid = 3 and edge = before and ts = "[]" and a = 0 and b = 2]
        onDrop_reorders_cells
          [where st = "initialEditor [StemCell (1::nat), StemCell 2, StemCell 3 :: (nat, unit) Cell] False"
             and ev = "\<lparr>sourceData = CellDragData 3 None, dropTargets = [CellDragData 1 (Some after)]\<rparr>"
             and sid = 3 and se = None and tid = 1 and edge = after and ts = "[]" and a = 2 and b = 0]
        onDrop_reorders_cells
          [where st = "initialEditor [StemCell (1::nat), StemCell 2, StemCell 3 :: (nat, unit) Cell] False"
             and ev = "\<lparr>sourceData = CellDragData 3 None, dropTargets = [CellDragData 1 (Some before)]\<rparr>"
             and sid = 3 and se = None and tid = 1 and edge = before and ts = "[]" and a = 2 and b = 0]
  by (auto simp add: initialEditor_def getReorderDestinationIndex_def)

text \<open>
  The scenario of the spec, run on the definitions: an empty notebook, a stem cell
  appended, the stem cell filled in with a rich-text cell, a stem cell created below
  it, and the second cell dragged before the first.
\<close>

lemma spec_scenario:
  "appendCell (StemCell (1::nat)) (initialEditor ([] :: (nat, unit) Cell list) False)
     = \<lparr>cells = [StemCell 1], activeCell = 0, selectedCells = {}, textSelection = False\<rparr>"
  "addOrReplaceActiveCell (RichTextCell 2 [])
     \<lparr>cells = [StemCell (1::nat) :: (nat, unit) Cell], activeCell = 0, selectedCells = {},
      textSelection = False\<rparr>
     = Some \<lparr>cells = [RichTextCell 2 []], activeCell = 0, selectedCells = {},
             textSelection = False\<rparr>"
  "createBelow 0 3
     \<lparr>cells = [RichTextCell (2::nat) [] :: (nat, unit) Cell], activeCell = 0,
      selectedCells = {}, textSelection = False\<rparr>
     = \<lparr>cells = [RichTextCell 2 [], StemCell 3], activeCell = 1, selectedCells = {},
        textSelection = False\<rparr>"
  "onDrop
     \<lparr>cells = [RichTextCell (2::nat) [], StemCell 3 :: (nat, unit) Cell], activeCell = 1,
      selectedCells = {}, textSelection = False\<rparr>
     \<lparr>sourceData = CellDragData 3 None, dropTargets = [CellDragData 2 (Some before)]\<rparr>
     = Some \<lparr>cells = [StemCell 3, RichTextCell 2 []], activeCell = 1, selectedCells = {},
             textSelection = False\<rparr>"
  by (simp_all add: appendCell_def addOrReplaceActiveCell_def replaceCellWith_def
        createBelow_def onDrop_def changeNotebook_def setActiveCell_def initialEditor_def
        cellAt_def splice_def newStemCell_def getReorderDestinationIndex_def
        deepCopyJSON_def Let_def)


section \<open>The registry of cell constructors\<close>

text \<open>
  C9. For every list \<open>L\<close> of constructors supplied by the caller, the registry is the
  built-in constructor named \<open>Text\<close>, which constructs a rich-text cell, followed by the
  elements of \<open>L\<close> in their order. There is one insert command and one replace command
  per constructor of the registry, in the same order and with its name, description and
  shortcut; completing the insert command runs \<open>addOrReplaceActiveCell\<close> on the cell the
  constructor makes, and completing the replace command for index \<open>i\<close> runs
  \<open>replaceCellWith i\<close> on it.
\<close>

theorem cellConstructors_and_commands:
  "tl (cellConstructors isMac L) = L
   \<and> length (cellConstructors isMac L) = Suc (length L)
   \<and> name (hd (cellConstructors isMac L)) = ''Text''
   \<and> construct (hd (cellConstructors isMac L)) = newRichTextCell
   \<and> (\<forall>uid. tag (construct (hd (cellConstructors isMac L)) uid) = rich_text)
   \<and> (\<forall>k. k < length L \<longrightarrow> cellConstructors isMac L ! Suc k = L ! k)
   \<and> length (insertCommands isMac L) = Suc (length L)
   \<and> length (replaceCommands isMac L i) = Suc (length L)
   \<and> (\<forall>k. k < Suc (length L) \<longrightarrow>
         name (insertCommands isMac L ! k) = name (cellConstructors isMac L ! k)
       \<and> description (insertCommands isMac L ! k) = description (cellConstructors isMac L ! k)
       \<and> shortcut (insertCommands isMac L ! k) = shortcut (cellConstructors isMac L ! k)
       \<and> (\<forall>uid st. onComplete (insertCommands isMac L ! k) uid st
              = addOrReplaceActiveCell (construct (cellConstructors isMac L ! k) uid) st)
       \<and> name (replaceCommands isMac L i ! k) = name (cellConstructors isMac L ! k)
       \<and> description (replaceCommands isMac L i ! k) = description (cellConstructors isMac L ! k)
       \<and> shortcut (replaceCommands isMac L i ! k) = shortcut (cellConstructors isMac L ! k)
       \<and> (\<forall>uid st. onComplete (replaceCommands isMac L i ! k) uid st
              = replaceCellWith i (construct (cellConstructors isMac L ! k) uid) st))"
proof -
  have len: "length (cellConstructors isMac L) = Suc (length L)"
    by (simp add: cellConstructors_def)
  have hdc: "construct (hd (cellConstructors isMac L)) = newRichTextCell"
    by (simp add: cellConstructors_def)
  have reg: "tl (cellConstructors isMac L) = L"
            "name (hd (cellConstructors isMac L)) = ''Text''"
            "\<forall>uid. tag (construct (hd (cellConstructors isMac L)) uid) = rich_text"
            "\<forall>k. k < length L \<longrightarrow> cellConstructors isMac L ! Suc k = L ! k"
    by (simp_all add: cellConstructors_def newRichTextCell_def)
  have cmds: "\<forall>k. k < Suc (length L) \<longrightarrow>
         name (insertCommands isMac L ! k) = name (cellConstructors isMac L ! k)
       \<and> description (insertCommands isMac L ! k) = description (cellConstructors isMac L ! k)
       \<and> shortcut (insertCommands isMac L ! k) = shortcut (cellConstructors isMac L ! k)
       \<and> (\<forall>uid st. onComplete (insertCommands isMac L ! k) uid st
              = addOrReplaceActiveCell (construct (cellConstructors isMac L ! k) uid) st)
       \<and> name (replaceCommands isMac L i ! k) = name (cellConstructors isMac L ! k)
       \<and> description (replaceCommands isMac L i ! k) = description (cellConstructors isMac L ! k)
       \<and> shortcut (replaceCommands isMac L i ! k) = shortcut (cellConstructors isMac L ! k)
       \<and> (\<forall>uid st. onComplete (replaceCommands isMac L i ! k) uid st
              = replaceCellWith i (construct (cellConstructors isMac L ! k) uid) st)"
    using len by (simp add: insertCommands_def replaceCommands_def)
  show ?thesis
    using len hdc reg cmds
    by (simp only: insertCommands_def replaceCommands_def length_map simp_thms)
qed

theorem registry_commands_witness:
  "map name (cellConstructors False
      [\<lparr>name = ''Object'', description = None, shortcut = Some [''O''],
        construct = (\<lambda>uid. FormalCell uid ()) :: nat \<Rightarrow> (nat, unit) Cell\<rparr>])
     = [''Text'', ''Object'']
   \<and> onComplete (insertCommands False
        [\<lparr>name = ''Object'', description = None, shortcut = Some [''O''],
          construct = (\<lambda>uid. FormalCell uid ()) :: nat \<Rightarrow> (nat, unit) Cell\<rparr>] ! 1) 5
        (initialEditor [StemCell 1] False)
     = Some (initialEditor [FormalCell 5 ()] False)
   \<and> onComplete (replaceCommands False
        [\<lparr>name = ''Object'', description = None, shortcut = Some [''O''],
          construct = (\<lambda>uid. FormalCell uid ()) :: nat \<Rightarrow> (nat, unit) Cell\<rparr>] 0 ! 0) 5
        (initialEditor [StemCell 1] False)
     = Some (initialEditor [RichTextCell 5 []] False)"
  using cellConstructors_and_commands
          [of False "[\<lparr>name = ''Object'', description = None, shortcut = Some [''O''],
              construct = (\<lambda>uid. FormalCell uid ()) :: nat \<Rightarrow> (nat, unit) Cell\<rparr>]" 0]
  by (simp add: cellConstructors_def addOrReplaceActiveCell_def replaceCellWith_def
        changeNotebook_def cellAt_def initialEditor_def newRichTextCell_def)

end
